theory Spec2Isabelle
  imports Complex_Main
begin

section \<open>Exceptions, effects and coroutines\<close>

text \<open>
  A shallow embedding of \<^verbatim>\<open>apifixer.py\<close>: the retry decorator
  \<^verbatim>\<open>retry_async_safe\<close>, the class \<^verbatim>\<open>APIClient\<close> and the
  orchestration routine \<^verbatim>\<open>fetch_demo\<close>.

  A Python exception object is its class name and its message. The values of this type
  are the exceptions that derive from \<^verbatim>\<open>Exception\<close>, the ones a clause
  \<^verbatim>\<open>except Exception\<close> catches; leaving a coroutine by cancellation or by another
  exception that derives from \<^verbatim>\<open>BaseException\<close> only is outside the model.
\<close>

datatype exn = Exn (cls: string) (msg: string)

text \<open>
  What the retry wrapper does to the outside world, in order: it calls the wrapped
  function (line 75), prints the failure with the attempt number and the limit
  (line 78), and sleeps (line 80). Delays are Python floats; they are modelled as real
  numbers, so rounding is not part of the model.
\<close>

datatype event =
    Invoke
  | Print_failed int int exn
  | Sleep real

text \<open>
  An awaited coroutine function is a state transformer that returns a value
  (\<open>Inr\<close>) or raises (\<open>Inl\<close>). The wrapper runs it on the component
  \<open>state\<close> of the world and records its own effects in \<open>trace\<close>. The arguments
  \<^verbatim>\<open>*args, **kwargs\<close> that the wrapper passes on are part of the function here.
\<close>

type_synonym ('s, 'a) coro = "'s \<Rightarrow> (exn + 'a) \<times> 's"

record 's world =
  state :: 's
  trace :: "event list"

section \<open>The retry decorator\<close>

text \<open>
  The closure that \<^verbatim>\<open>retry_async_safe(retries, delay, backoff)\<close> returns holds
  its three arguments.
\<close>

record policy =
  retries :: int
  delay :: real
  backoff :: real

text \<open>
  Lines 66 to 84: the body of \<^verbatim>\<open>retry_async_safe\<close> defines the decorator and
  returns it. It has no check and no \<^verbatim>\<open>raise\<close>, so the construction is always
  \<open>Inr\<close>.
\<close>

definition retry_async_safe :: "int \<Rightarrow> real \<Rightarrow> real \<Rightarrow> exn + policy" where
  "retry_async_safe r d b = Inr \<lparr>retries = r, delay = d, backoff = b\<rparr>"

text \<open>
  Line 82, \<^verbatim>\<open>raise last_err\<close>. When no attempt was made \<^verbatim>\<open>last_err\<close> is still
  \<^verbatim>\<open>None\<close>, and Python raises a \<^verbatim>\<open>TypeError\<close> instead.
\<close>

definition raise_None :: exn where
  "raise_None = Exn ''TypeError'' ''exceptions must derive from BaseException''"

definition raise_last :: "exn option \<Rightarrow> exn" where
  "raise_last last_err = (case last_err of None \<Rightarrow> raise_None | Some e \<Rightarrow> e)"

text \<open>
  Lines 73 to 82: the loop \<^verbatim>\<open>for attempt in range(1, retries + 1)\<close>, as a recursion
  over the attempts still to make, with the loop variables \<^verbatim>\<open>_delay\<close> and
  \<^verbatim>\<open>last_err\<close>. A return leaves the loop; a failure is printed and, when
  \<^verbatim>\<open>attempt < retries\<close>, followed by the sleep and the multiplication of the delay.
  When the range is used up, line 82 raises.
\<close>

fun retry_loop ::
  "policy \<Rightarrow> ('s, 'a) coro \<Rightarrow> int list \<Rightarrow> real \<Rightarrow> exn option \<Rightarrow> 's world \<Rightarrow> (exn + 'a) \<times> 's world"
where
  "retry_loop p func [] dl last_err w = (Inl (raise_last last_err), w)"
| "retry_loop p func (attempt # rest) dl last_err w =
     (case func (state w) of
        (Inr v, s') \<Rightarrow> (Inr v, \<lparr>state = s', trace = trace w @ [Invoke]\<rparr>)
      | (Inl e, s') \<Rightarrow>
          (if attempt < retries p
           then retry_loop p func rest (dl * backoff p) (Some e)
                  \<lparr>state = s',
                   trace = trace w @ [Invoke, Print_failed attempt (retries p) e, Sleep dl]\<rparr>
           else retry_loop p func rest dl (Some e)
                  \<lparr>state = s',
                   trace = trace w @ [Invoke, Print_failed attempt (retries p) e]\<rparr>))"

text \<open>Lines 70 to 82: the wrapper, with \<^verbatim>\<open>_delay = delay\<close> and \<^verbatim>\<open>last_err = None\<close>.\<close>

definition wrapper :: "policy \<Rightarrow> ('s, 'a) coro \<Rightarrow> 's world \<Rightarrow> (exn + 'a) \<times> 's world" where
  "wrapper p func w = retry_loop p func [1..retries p] (delay p) None w"

section \<open>Observations on a run\<close>

text \<open>
  The state in which the \<open>(k+1)\<close>-th call of a coroutine function starts, and what
  that call does.
\<close>

definition state_after :: "('s, 'a) coro \<Rightarrow> 's \<Rightarrow> nat \<Rightarrow> 's" where
  "state_after func s k = ((\<lambda>x. snd (func x)) ^^ k) s"

definition outcome :: "('s, 'a) coro \<Rightarrow> 's \<Rightarrow> nat \<Rightarrow> exn + 'a" where
  "outcome func s k = fst (func (state_after func s k))"

fun invocations :: "event list \<Rightarrow> nat" where
  "invocations [] = 0"
| "invocations (Invoke # tr) = Suc (invocations tr)"
| "invocations (_ # tr) = invocations tr"

fun sleeps :: "event list \<Rightarrow> real list" where
  "sleeps [] = []"
| "sleeps (Sleep d # tr) = d # sleeps tr"
| "sleeps (_ # tr) = sleeps tr"

text \<open>The trace without the console output: the calls and the sleeps.\<close>

fun timing :: "event list \<Rightarrow> event list" where
  "timing [] = []"
| "timing (Print_failed a n e # tr) = timing tr"
| "timing (ev # tr) = ev # timing tr"

text \<open>
  The events of \<open>j\<close> failed attempts that are each followed by a sleep: attempt
  \<open>k + 1\<close> fails with the error of the \<open>(k+1)\<close>-th call and is followed by a sleep
  of \<open>d * b ^ k\<close>.
\<close>

definition failed_attempts :: "policy \<Rightarrow> ('s, 'a) coro \<Rightarrow> 's \<Rightarrow> nat \<Rightarrow> event list" where
  "failed_attempts p func s j =
     concat (map (\<lambda>k. [Invoke, Print_failed (1 + int k) (retries p) (projl (outcome func s k)),
                        Sleep (delay p * backoff p ^ k)]) [0..<j])"

section \<open>The API client\<close>

text \<open>
  The transport is the library \<^verbatim>\<open>httpx\<close>, outside the repository. An
  \<^verbatim>\<open>httpx.AsyncClient\<close> is the connection resource: an identity and the base URL and
  timeout it was created with. What a \<^verbatim>\<open>GET\<close> does is a parameter of the model: a
  function of the state of the network, the connection, the path and the query
  parameters. Its answer says what the three library calls of lines 132 to 134 do:
  \<^verbatim>\<open>get\<close> raises, or it returns a response for which \<^verbatim>\<open>raise_for_status()\<close>
  raises or passes, and \<^verbatim>\<open>json()\<close> raises or returns the decoded body.
\<close>

datatype pyval = PInt int | PStr string

type_synonym params = "(string \<times> pyval) list option"

record httpx_client =
  ident :: nat
  h_base_url :: string
  h_timeout :: real

datatype 'j reply =
    Get_raises exn
  | Response "exn option" "exn + 'j"

type_synonym ('n, 'j) transport = "'n \<Rightarrow> httpx_client \<Rightarrow> string \<Rightarrow> params \<Rightarrow> 'j reply \<times> 'n"

text \<open>
  The lines that the decorators \<^verbatim>\<open>log_calls\<close> and \<^verbatim>\<open>timed\<close> print, by the name of
  the decorated function; the arguments and the elapsed time in them are left out.
\<close>

datatype line = Called string | Returned string | Took string

datatype io_event =
    Created httpx_client
  | Aclose httpx_client
  | Get httpx_client string params
  | Console line

text \<open>
  An \<^verbatim>\<open>APIClient\<close> object; \<open>client\<close> is the attribute \<^verbatim>\<open>_client\<close>. Objects
  are shared between \<^verbatim>\<open>fetch_demo\<close> and the coroutines it creates, so they live in a
  store, addressed by numbers.
\<close>

record APIClient =
  base_url :: string
  timeout :: real
  client :: "httpx_client option"

record 'n env =
  objects :: "nat \<Rightarrow> APIClient"
  next_object :: nat
  next_client :: nat
  net :: 'n
  io :: "io_event list"

text \<open>Python's \<^verbatim>\<open>s.rstrip(chars)\<close>: \<open>s\<close> without its trailing characters that are in \<open>chars\<close>.\<close>

definition rstrip :: "string \<Rightarrow> string \<Rightarrow> string" where
  "rstrip s chars = rev (dropWhile (\<lambda>c. c \<in> set chars) (rev s))"

text \<open>Lines 96 to 99, \<^verbatim>\<open>__init__\<close>: a new object, its address returned.\<close>

definition APIClient_init :: "string \<Rightarrow> real \<Rightarrow> 'n env \<Rightarrow> nat \<times> 'n env" where
  "APIClient_init url t e =
     (next_object e,
      e\<lparr>objects := (objects e)(next_object e :=
            \<lparr>base_url = rstrip url ''/'', timeout = t, client = None\<rparr>),
        next_object := Suc (next_object e)\<rparr>)"

text \<open>
  Lines 101 to 103, \<^verbatim>\<open>__aenter__\<close>: creates the \<^verbatim>\<open>httpx.AsyncClient\<close>, stores it
  and returns \<^verbatim>\<open>self\<close>.
\<close>

definition aenter :: "nat \<Rightarrow> 'n env \<Rightarrow> nat \<times> 'n env" where
  "aenter self e =
     (let h = \<lparr>ident = next_client e, h_base_url = base_url (objects e self),
                h_timeout = timeout (objects e self)\<rparr>
      in (self,
          e\<lparr>objects := (objects e)(self := (objects e self)\<lparr>client := Some h\<rparr>),
            next_client := Suc (next_client e),
            io := io e @ [Created h]\<rparr>))"

text \<open>
  Lines 112 to 115, \<^verbatim>\<open>__aexit__\<close>: closes the connection if there is one and sets the
  attribute to \<^verbatim>\<open>None\<close>. It returns \<^verbatim>\<open>None\<close>, so an exception of the block is not
  suppressed.
\<close>

definition aexit :: "nat \<Rightarrow> 'n env \<Rightarrow> 'n env" where
  "aexit self e =
     (case client (objects e self) of
        None \<Rightarrow> e
      | Some h \<Rightarrow>
          e\<lparr>objects := (objects e)(self := (objects e self)\<lparr>client := None\<rparr>),
            io := io e @ [Aclose h]\<rparr>)"

text \<open>Line 131: the error of a call outside an open scope.\<close>

definition not_initialized :: exn where
  "not_initialized =
     Exn ''RuntimeError''
       (''APIClient not initialized. Use 'async with APIClient(...) as c:'' @ [CHR 0x27])"

text \<open>Lines 129 to 134: the body of \<^verbatim>\<open>get_json\<close>, without its decorators.\<close>

definition get_json_body ::
  "('n, 'j) transport \<Rightarrow> nat \<Rightarrow> string \<Rightarrow> params \<Rightarrow> ('n env, 'j) coro"
where
  "get_json_body T self path ps e =
     (case client (objects e self) of
        None \<Rightarrow> (Inl not_initialized, e)
      | Some h \<Rightarrow>
          (case T (net e) h path ps of
             (rep, n') \<Rightarrow>
               (let e' = e\<lparr>net := n', io := io e @ [Get h path ps]\<rparr>
                in case rep of
                     Get_raises x \<Rightarrow> (Inl x, e')
                   | Response status body \<Rightarrow>
                       (case status of
                          Some x \<Rightarrow> (Inl x, e')
                        | None \<Rightarrow>
                            (case body of
                               Inl x \<Rightarrow> (Inl x, e')
                             | Inr v \<Rightarrow> (Inr v, e'))))))"

text \<open>
  Lines 28 to 33, the asynchronous wrapper of \<^verbatim>\<open>log_calls\<close>: a line before the call,
  and a line after it when the call returns. Lines 54 to 61, the asynchronous wrapper of
  \<^verbatim>\<open>timed\<close>: the line of the \<^verbatim>\<open>finally\<close> clause is printed on return and on an
  exception. Both pass the result or the exception on. \<open>say\<close> is \<^verbatim>\<open>print\<close>.
  The two decorated functions, \<^verbatim>\<open>get_json\<close> and \<^verbatim>\<open>fetch_demo\<close>, are coroutine
  functions, so lines 37 and 63 choose these wrappers and not the synchronous ones.
\<close>

definition log_calls :: "(line \<Rightarrow> 's \<Rightarrow> 's) \<Rightarrow> string \<Rightarrow> ('s, 'a) coro \<Rightarrow> ('s, 'a) coro" where
  "log_calls say name func s =
     (case func (say (Called name) s) of
        (Inr v, s') \<Rightarrow> (Inr v, say (Returned name) s')
      | (Inl x, s') \<Rightarrow> (Inl x, s'))"

definition timed :: "(line \<Rightarrow> 's \<Rightarrow> 's) \<Rightarrow> string \<Rightarrow> ('s, 'a) coro \<Rightarrow> ('s, 'a) coro" where
  "timed say name func s = (case func s of (r, s') \<Rightarrow> (r, say (Took name) s'))"

definition print_line :: "line \<Rightarrow> 'n env \<Rightarrow> 'n env" where
  "print_line l e = e\<lparr>io := io e @ [Console l]\<rparr>"

text \<open>
  Lines 126 to 129: \<^verbatim>\<open>get_json\<close> as the class has it, under
  \<^verbatim>\<open>@retry_async_safe(retries=3, delay=0.3)\<close>, \<^verbatim>\<open>@timed\<close> and \<^verbatim>\<open>@log_calls\<close>;
  the backoff factor is the default 2.0.
\<close>

definition get_json ::
  "('n, 'j) transport \<Rightarrow> nat \<Rightarrow> string \<Rightarrow> params \<Rightarrow> 'n env world \<Rightarrow> (exn + 'j) \<times> 'n env world"
where
  "get_json T self path ps =
     wrapper (projr (retry_async_safe 3 (3 / 10) 2))
       (timed print_line ''get_json'' (log_calls print_line ''get_json'' (get_json_body T self path ps)))"

section \<open>Scopes and the orchestration\<close>

text \<open>
  The statement \<^verbatim>\<open>async with APIClient(url, timeout) as c: block\<close>: the object is
  constructed and entered, the block runs with \<open>c\<close> bound to what \<^verbatim>\<open>__aenter__\<close>
  returned, and \<^verbatim>\<open>__aexit__\<close> runs however the block ends. As \<^verbatim>\<open>__aexit__\<close> returns
  \<^verbatim>\<open>None\<close>, the value or the exception of the block is that of the statement.
\<close>

definition scope_start :: "string \<Rightarrow> real \<Rightarrow> 'n env world \<Rightarrow> 'n env world" where
  "scope_start url t w =
     (case APIClient_init url t (state w) of
        (self, e1) \<Rightarrow> w\<lparr>state := snd (aenter self e1)\<rparr>)"

definition async_with_APIClient ::
  "string \<Rightarrow> real \<Rightarrow> (nat \<Rightarrow> 'n env world \<Rightarrow> (exn + 'a) \<times> 'n env world) \<Rightarrow>
   'n env world \<Rightarrow> (exn + 'a) \<times> 'n env world"
where
  "async_with_APIClient url t block w =
     (case APIClient_init url t (state w) of
        (self, e1) \<Rightarrow>
          (case aenter self e1 of
             (c, e2) \<Rightarrow>
               (case block c (w\<lparr>state := e2\<rparr>) of
                  (r, w') \<Rightarrow> (r, w'\<lparr>state := aexit self (state w')\<rparr>))))"

text \<open>
  \<^verbatim>\<open>asyncio.gather(*aws)\<close> is library code. It is modelled after its documented
  behaviour: the awaitables run concurrently; when all have returned, the result is the
  list of their values in the order of the awaitables; the first exception raised is
  propagated to the caller at once. Concurrency is reduced to the order of completion,
  given by a finishing time for every awaitable (equal times in the order of
  submission): each awaitable runs as a whole when it completes, and those that would
  complete after the first failure are not run. Every completion is recorded with the
  index of the awaitable, and the result is read off by index.
\<close>

fun gather_loop ::
  "(nat \<times> ('w \<Rightarrow> (exn + 'j) \<times> 'w)) list \<Rightarrow> (nat \<times> 'j) list \<Rightarrow> 'w \<Rightarrow> (exn + (nat \<times> 'j) list) \<times> 'w"
where
  "gather_loop [] finished w = (Inr finished, w)"
| "gather_loop ((i, aw) # rest) finished w =
     (case aw w of
        (Inl x, w') \<Rightarrow> (Inl x, w')
      | (Inr v, w') \<Rightarrow> gather_loop rest (finished @ [(i, v)]) w')"

definition completion_order :: "(nat \<Rightarrow> nat) \<Rightarrow> 'a list \<Rightarrow> (nat \<times> 'a) list" where
  "completion_order finish aws = sort_key (\<lambda>(i, aw). finish i) (enumerate 0 aws)"

definition gather ::
  "('w \<Rightarrow> (exn + 'j) \<times> 'w) list \<Rightarrow> (nat \<Rightarrow> nat) \<Rightarrow> 'w \<Rightarrow> (exn + 'j list) \<times> 'w"
where
  "gather aws finish w =
     (case gather_loop (completion_order finish aws) [] w of
        (Inl x, w') \<Rightarrow> (Inl x, w')
      | (Inr finished, w') \<Rightarrow> (Inr (map snd (sort_key fst finished)), w'))"

text \<open>
  Line 150 unpacks the list into five names; Python raises a \<^verbatim>\<open>ValueError\<close> when the
  list has another length.
\<close>

definition unpack5 :: "'j list \<Rightarrow> exn + 'j \<times> 'j \<times> 'j \<times> 'j \<times> 'j" where
  "unpack5 vs =
     (case vs of
        [users, post, comments, d1, d2] \<Rightarrow> Inr (users, post, comments, d1, d2)
      | _ \<Rightarrow>
          Inl (Exn ''ValueError''
                 (if length vs < 5 then ''not enough values to unpack''
                  else ''too many values to unpack'')))"

text \<open>
  Lines 141 to 152 of \<^verbatim>\<open>fetch_demo\<close>: the two nested scopes, the five coroutines in
  the order of their submission, and the gather. The coroutines are created in the
  scopes and run only in the gather. The model returns the five values that line 150
  binds; the summary that \<^verbatim>\<open>fetch_demo\<close> prints from them after both scopes are left
  (lines 154 to 158) and the line of its decorator \<^verbatim>\<open>timed\<close> are not modelled.
\<close>

definition fetch_demo ::
  "('n, 'j) transport \<Rightarrow> (nat \<Rightarrow> nat) \<Rightarrow> 'n env world \<Rightarrow>
   (exn + 'j \<times> 'j \<times> 'j \<times> 'j \<times> 'j) \<times> 'n env world"
where
  "fetch_demo T finish =
     async_with_APIClient ''https://jsonplaceholder.typicode.com'' 10 (\<lambda>jp.
       let users_task = get_json T jp ''/users/1'' None;
           post_task = get_json T jp ''/posts/1'' None;
           comments_task = get_json T jp ''/comments'' (Some [(''postId'', PInt 1)])
       in async_with_APIClient ''https://httpbin.org'' 10 (\<lambda>hb.
            let slow1 = get_json T hb ''/delay/1'' None;
                slow2 = get_json T hb ''/delay/2'' None
            in (\<lambda>w. case gather [users_task, post_task, comments_task, slow1, slow2] finish w of
                      (Inl x, w') \<Rightarrow> (Inl x, w')
                    | (Inr vs, w') \<Rightarrow> (unpack5 vs, w'))))"

text \<open>The events of an I/O log that create or close a connection, and its requests.\<close>

fun lifecycle :: "io_event list \<Rightarrow> io_event list" where
  "lifecycle [] = []"
| "lifecycle (Created h # evs) = Created h # lifecycle evs"
| "lifecycle (Aclose h # evs) = Aclose h # lifecycle evs"
| "lifecycle (_ # evs) = lifecycle evs"

fun requests :: "io_event list \<Rightarrow> io_event list" where
  "requests [] = []"
| "requests (Get h path ps # evs) = Get h path ps # requests evs"
| "requests (_ # evs) = requests evs"

text \<open>What a call of \<open>get_json\<close> leaves as it is: the objects, the counters and the connections.\<close>

definition same_scopes :: "'n env \<Rightarrow> 'n env \<Rightarrow> bool" where
  "same_scopes e e' \<longleftrightarrow>
     objects e' = objects e \<and> next_object e' = next_object e \<and> next_client e' = next_client e \<and>
     lifecycle (io e') = lifecycle (io e)"


text \<open>The answers of the transport with which \<^verbatim>\<open>get_json\<close> raises.\<close>

definition fails :: "'j reply \<Rightarrow> bool" where
  "fails rep =
     (case rep of
        Get_raises x \<Rightarrow> True
      | Response status body \<Rightarrow> (case status of Some x \<Rightarrow> True | None \<Rightarrow> isl body))"

text \<open>
  The objects and connections of \<^verbatim>\<open>fetch_demo\<close> when it starts in the world \<open>w\<close>,
  and its five coroutines in the order in which line 150 submits them.
\<close>

definition jp_of :: "'n env world \<Rightarrow> nat" where
  "jp_of w = next_object (state w)"

definition hb_of :: "'n env world \<Rightarrow> nat" where
  "hb_of w = Suc (next_object (state w))"

definition jp_client :: "'n env world \<Rightarrow> httpx_client" where
  "jp_client w =
     \<lparr>ident = next_client (state w), h_base_url = ''https://jsonplaceholder.typicode.com'',
      h_timeout = 10\<rparr>"

definition hb_client :: "'n env world \<Rightarrow> httpx_client" where
  "hb_client w =
     \<lparr>ident = Suc (next_client (state w)), h_base_url = ''https://httpbin.org'', h_timeout = 10\<rparr>"

definition demo_tasks ::
  "('n, 'j) transport \<Rightarrow> nat \<Rightarrow> nat \<Rightarrow> ('n env world \<Rightarrow> (exn + 'j) \<times> 'n env world) list"
where
  "demo_tasks T jp hb =
     [get_json T jp ''/users/1'' None,
      get_json T jp ''/posts/1'' None,
      get_json T jp ''/comments'' (Some [(''postId'', PInt 1)]),
      get_json T hb ''/delay/1'' None,
      get_json T hb ''/delay/2'' None]"

text \<open>The world in which the gather of \<^verbatim>\<open>fetch_demo\<close> starts: both scopes are open.\<close>

definition both_open :: "'n env world \<Rightarrow> 'n env world" where
  "both_open w =
     w\<lparr>state := (state w)
         \<lparr>objects := (objects (state w))
            (jp_of w := \<lparr>base_url = ''https://jsonplaceholder.typicode.com'', timeout = 10,
                          client = Some (jp_client w)\<rparr>,
             hb_of w := \<lparr>base_url = ''https://httpbin.org'', timeout = 10,
                          client = Some (hb_client w)\<rparr>),
          next_object := Suc (Suc (next_object (state w))),
          next_client := Suc (Suc (next_client (state w))),
          io := io (state w) @ [Created (jp_client w), Created (hb_client w)]\<rparr>\<rparr>"

section \<open>Concrete inputs\<close>

text \<open>
  Test doubles for the wrapped function, used where a theorem is evaluated on a concrete
  run. Their state is the number of calls made so far, and each error carries the number
  of the call that raised it: \<open>flaky n kind v\<close> fails on its first \<open>n - 1\<close> calls
  and returns \<open>v\<close> from then on, \<open>always_failing kind\<close> fails on every call.
\<close>

definition flaky :: "nat \<Rightarrow> string \<Rightarrow> 'a \<Rightarrow> (nat, 'a) coro" where
  "flaky n kind v calls =
     (if Suc calls < n then Inl (Exn kind (''call '' @ replicate (Suc calls) CHR ''I'')) else Inr v, Suc calls)"

definition always_failing :: "string \<Rightarrow> (nat, 'a) coro" where
  "always_failing kind calls = (Inl (Exn kind (''call '' @ replicate (Suc calls) CHR ''I'')), Suc calls)"

text \<open>
  A server for the transport: it answers every request with a body made of the base URL
  and the path, except that every request for the path \<open>bad\<close> gets a response whose
  \<^verbatim>\<open>raise_for_status()\<close> raises. The state of the network counts the requests. \<open>fresh\<close>
  is a world in which nothing has happened yet.
\<close>

definition broken_server :: "string \<Rightarrow> (nat, string) transport" where
  "broken_server bad n h path ps =
     (if path = bad
      then Response (Some (Exn ''HTTPStatusError'' ''500 Internal Server Error'')) (Inr [])
      else Response None (Inr (h_base_url h @ path)),
      Suc n)"

definition fresh :: "nat env world" where
  "fresh =
     \<lparr>state = \<lparr>objects = (\<lambda>a. \<lparr>base_url = [], timeout = 0, client = None\<rparr>),
               next_object = 0, next_client = 0, net = 0, io = []\<rparr>,
      trace = []\<rparr>"


text \<open>A block for a scope: one request, whose value it returns early or whose error it raises.\<close>

definition one_request ::
  "(nat, string) transport \<Rightarrow> string \<Rightarrow> nat \<Rightarrow> nat env world \<Rightarrow> (exn + string) \<times> nat env world"
where
  "one_request T path c w = get_json T c path None w"

section \<open>The loop, attempt by attempt\<close>

lemma state_after_0: "state_after func s 0 = s"
  by (simp add: state_after_def)

lemma state_after_Suc: "state_after func s (Suc k) = snd (func (state_after func s k))"
  by (simp add: state_after_def)

lemma func_outcome: "func (state_after func s k) = (outcome func s k, state_after func s (Suc k))"
  by (simp add: outcome_def state_after_Suc)

lemma failed_attempts_0: "failed_attempts p func s 0 = []"
  by (simp add: failed_attempts_def)

lemma failed_attempts_Suc:
  "failed_attempts p func s (Suc j) =
     failed_attempts p func s j @
       [Invoke, Print_failed (1 + int j) (retries p) (projl (outcome func s j)),
        Sleep (delay p * backoff p ^ j)]"
  by (simp add: failed_attempts_def)

lemma isl_projl: "isl x \<Longrightarrow> x = Inl (projl x)"
  by (cases x) simp_all

lemma invocations_append: "invocations (xs @ ys) = invocations xs + invocations ys"
  by (induction xs rule: invocations.induct) simp_all

lemma sleeps_append: "sleeps (xs @ ys) = sleeps xs @ sleeps ys"
  by (induction xs rule: sleeps.induct) simp_all

lemma timing_append: "timing (xs @ ys) = timing xs @ timing ys"
  by (induction xs rule: timing.induct) simp_all

lemma invocations_failed_attempts: "invocations (failed_attempts p func s j) = j"
  by (induction j) (simp_all add: failed_attempts_0 failed_attempts_Suc invocations_append)

lemma sleeps_failed_attempts:
  "sleeps (failed_attempts p func s j) = map (\<lambda>k. delay p * backoff p ^ k) [0..<j]"
  by (induction j) (simp_all add: failed_attempts_0 failed_attempts_Suc sleeps_append)

lemma timing_failed_attempts:
  "timing (failed_attempts p func s j) =
     concat (map (\<lambda>k. [Invoke, Sleep (delay p * backoff p ^ k)]) [0..<j])"
  by (induction j) (simp_all add: failed_attempts_0 failed_attempts_Suc timing_append)

text \<open>
  After \<open>j\<close> failed attempts, none of them the last one, the loop stands before attempt
  \<open>j + 1\<close> with the delay multiplied \<open>j\<close> times.
\<close>

lemma retry_loop_failures:
  assumes "\<forall>k<j. isl (outcome func s k)" and "int j < retries p"
  shows "retry_loop p func [1..retries p] (delay p) None \<lparr>state = s, trace = []\<rparr> =
         retry_loop p func [1 + int j..retries p] (delay p * backoff p ^ j)
           (if j = 0 then None else Some (projl (outcome func s (j - 1))))
           \<lparr>state = state_after func s j, trace = failed_attempts p func s j\<rparr>"
  using assms
proof (induction j)
  case 0
  then show ?case by (simp add: state_after_0 failed_attempts_0)
next
  case (Suc j)
  from Suc.prems have fails: "\<forall>k<j. isl (outcome func s k)" and lt: "int j < retries p"
    by simp_all
  from Suc.prems have "isl (outcome func s j)" by simp
  then have out: "outcome func s j = Inl (projl (outcome func s j))"
    by (rule isl_projl)
  from Suc.prems have more: "1 + int j < retries p" by simp
  then have range: "[1 + int j..retries p] = (1 + int j) # [1 + int (Suc j)..retries p]"
    by (simp add: upto_rec1 add.commute)
  have step: "func (state_after func s j) = (Inl (projl (outcome func s j)), state_after func s (Suc j))"
    using func_outcome [of func s j] out by simp
  show ?case
    unfolding Suc.IH [OF fails lt] range
    using more by (simp add: step failed_attempts_Suc mult.assoc mult.commute [of "backoff p"])
qed

text \<open>The run in which the call number \<open>j + 1\<close> is the first to succeed.\<close>

lemma wrapper_success_at:
  assumes "\<forall>k<j. isl (outcome func s k)" and "outcome func s j = Inr v" and "int j < retries p"
  shows "wrapper p func \<lparr>state = s, trace = []\<rparr> =
         (Inr v, \<lparr>state = state_after func s (Suc j), trace = failed_attempts p func s j @ [Invoke]\<rparr>)"
proof -
  from assms(3) have range: "[1 + int j..retries p] = (1 + int j) # [2 + int j..retries p]"
    by (simp add: upto_rec1)
  have step: "func (state_after func s j) = (Inr v, state_after func s (Suc j))"
    using func_outcome [of func s j] assms(2) by simp
  show ?thesis
    unfolding wrapper_def retry_loop_failures [OF assms(1) assms(3)] range
    by (simp add: step)
qed

text \<open>The run in which every attempt fails.\<close>

lemma wrapper_all_fail:
  assumes "1 \<le> retries p" and "\<forall>k<nat (retries p). isl (outcome func s k)"
  shows "wrapper p func \<lparr>state = s, trace = []\<rparr> =
         (Inl (projl (outcome func s (nat (retries p) - 1))),
          \<lparr>state = state_after func s (nat (retries p)),
           trace = failed_attempts p func s (nat (retries p) - 1) @
             [Invoke, Print_failed (retries p) (retries p) (projl (outcome func s (nat (retries p) - 1)))]\<rparr>)"
proof -
  define j where "j = nat (retries p) - 1"
  from assms(1) have n: "retries p = 1 + int j" and sj: "nat (retries p) = Suc j"
    by (simp_all add: j_def)
  from assms(2) sj have fails: "\<forall>k<j. isl (outcome func s k)" and "isl (outcome func s j)"
    by simp_all
  then have out: "outcome func s j = Inl (projl (outcome func s j))"
    using isl_projl by blast
  have lt: "int j < retries p" using n by simp
  have range: "[1 + int j..retries p] = [retries p]"
    using n by (simp add: upto_rec1)
  have step: "func (state_after func s j) = (Inl (projl (outcome func s j)), state_after func s (Suc j))"
    using func_outcome [of func s j] out by simp
  have "wrapper p func \<lparr>state = s, trace = []\<rparr> =
         (Inl (projl (outcome func s j)),
          \<lparr>state = state_after func s (Suc j),
           trace = failed_attempts p func s j @
             [Invoke, Print_failed (retries p) (retries p) (projl (outcome func s j))]\<rparr>)"
    unfolding wrapper_def retry_loop_failures [OF fails lt] range
    by (simp add: step raise_last_def)
  then show ?thesis by (simp add: j_def [symmetric] sj)
qed

text \<open>With a limit below 1 the range is empty: no call is made and line 82 raises.\<close>

lemma wrapper_no_attempt:
  assumes "retries p < 1"
  shows "wrapper p func w = (Inl raise_None, w)"
  using assms by (simp add: wrapper_def raise_last_def)

text \<open>
  Every run with a limit of at least 1 is one of the two: some call among the first
  \<open>retries\<close> succeeds, or all of them fail.
\<close>

lemma first_success_or_all_fail:
  fixes out :: "nat \<Rightarrow> exn + 'a"
  shows "(\<exists>j<n. (\<forall>k<j. isl (out k)) \<and> \<not> isl (out j)) \<or> (\<forall>k<n. isl (out k))"
proof (cases "\<forall>k<n. isl (out k)")
  case True
  then show ?thesis by simp
next
  case False
  then obtain i where i: "i < n" "\<not> isl (out i)" by blast
  define j where "j = (LEAST i. \<not> isl (out i))"
  have "\<not> isl (out j)" unfolding j_def using i(2) by (rule LeastI)
  moreover have "j \<le> i" unfolding j_def using i(2) by (rule Least_le)
  moreover have "\<forall>k<j. isl (out k)" unfolding j_def using not_less_Least by blast
  ultimately have "j < n \<and> (\<forall>k<j. isl (out k)) \<and> \<not> isl (out j)"
    using i(1) by simp
  then show ?thesis by blast
qed


lemma outcome_flaky: "outcome (flaky n kind v) 0 k =
   (if Suc k < n then Inl (Exn kind (''call '' @ replicate (Suc k) CHR ''I'')) else Inr v)"
proof -
  have "state_after (flaky n kind v) 0 k = k"
    by (induction k) (simp_all add: state_after_0 state_after_Suc flaky_def)
  then show ?thesis by (simp add: outcome_def flaky_def)
qed

lemma outcome_always_failing: "outcome (always_failing kind) 0 k =
   Inl (Exn kind (''call '' @ replicate (Suc k) CHR ''I''))"
proof -
  have "state_after (always_failing kind) 0 k = k"
    by (induction k) (simp_all add: state_after_0 state_after_Suc always_failing_def)
  then show ?thesis by (simp add: outcome_def always_failing_def)
qed

section \<open>The gather, by completion order\<close>




lemma gather_loop_invariant:
  assumes "\<And>c w0. c \<in> set cs \<Longrightarrow> Q w0 \<Longrightarrow> Q (snd (snd c w0))" and "Q w"
  shows "Q (snd (gather_loop cs acc w))"
  using assms
proof (induction cs arbitrary: acc w)
  case Nil
  then show ?case by simp
next
  case (Cons d cs)
  obtain i aw where d: "d = (i, aw)" by (cases d)
  obtain r w1 where run: "aw w = (r, w1)" by (cases "aw w")
  have q1: "Q w1" using Cons.prems(1) [of d w] Cons.prems(2) d run by simp
  show ?case
  proof (cases r)
    case (Inl y)
    with d run q1 show ?thesis by simp
  next
    case (Inr v)
    have "Q (snd (gather_loop cs (acc @ [(i, v)]) w1))"
      by (rule Cons.IH) (use Cons.prems(1) q1 in auto)
    with d run Inr show ?thesis by simp
  qed
qed

lemma set_completion_order: "set (completion_order finish aws) = set (enumerate 0 aws)"
  by (simp add: completion_order_def)

lemma in_completion_order:
  "c \<in> set (completion_order finish aws) \<longleftrightarrow> fst c < length aws \<and> snd c = aws ! fst c"
  by (auto simp: set_completion_order in_set_enumerate_eq)






lemma gather_invariant:
  assumes "\<And>i w0. i < length aws \<Longrightarrow> Q w0 \<Longrightarrow> Q (snd ((aws ! i) w0))" and "Q w"
  shows "Q (snd (gather aws finish w))"
proof -
  have "Q (snd (gather_loop (completion_order finish aws) [] w))"
    by (rule gather_loop_invariant) (use assms in \<open>auto simp: in_completion_order\<close>)
  then show ?thesis by (auto simp: gather_def split: prod.splits sum.splits)
qed

section \<open>The constructor's normalisation of the base URL\<close>

lemma dropWhile_replicate_append: "P c \<Longrightarrow> dropWhile P (replicate n c @ ys) = dropWhile P ys"
  by (induction n) simp_all

lemma rstrip_append_replicate: "rstrip (u @ replicate n c) [c] = rstrip u [c]"
  by (simp add: rstrip_def dropWhile_replicate_append)

lemma rstrip_decompose: "\<exists>k. s = rstrip s [c] @ replicate k c"
proof -
  let ?P = "\<lambda>x. x \<in> set [c]"
  have "takeWhile ?P (rev s) = replicate (length (takeWhile ?P (rev s))) c"
    by (rule replicate_eqI) (auto dest: set_takeWhileD)
  moreover have "s = rev (dropWhile ?P (rev s)) @ rev (takeWhile ?P (rev s))"
    by (metis rev_append rev_rev_ident takeWhile_dropWhile_id)
  ultimately have "s = rstrip s [c] @ replicate (length (takeWhile ?P (rev s))) c"
    by (metis rstrip_def rev_replicate)
  then show ?thesis ..
qed

lemma rstrip_no_trailing: "\<not> (\<exists>v. rstrip s [c] = v @ [c])"
proof
  assume "\<exists>v. rstrip s [c] = v @ [c]"
  then obtain v where "rev (dropWhile (\<lambda>x. x \<in> set [c]) (rev s)) = v @ [c]"
    by (auto simp: rstrip_def)
  then have "dropWhile (\<lambda>x. x \<in> set [c]) (rev s) = c # rev v"
    by (metis rev.simps(2) rev_rev_ident rev_swap)
  then show False
    using hd_dropWhile [of "\<lambda>x. x \<in> set [c]" "rev s"] by simp
qed

section \<open>What the retry loop and a request leave unchanged\<close>

lemma retry_loop_invariant:
  assumes "\<And>s. P s \<Longrightarrow> P (snd (func s))" and "P (state w)"
  shows "P (state (snd (retry_loop p func as dl le w)))"
  using assms(2)
proof (induction as arbitrary: dl le w)
  case Nil
  then show ?case by simp
next
  case (Cons a as)
  obtain r s' where run: "func (state w) = (r, s')" by (cases "func (state w)")
  have s': "P s'" using assms(1) [OF Cons.prems] run by simp
  show ?case
  proof (cases r)
    case (Inr v)
    with run s' show ?thesis by simp
  next
    case (Inl e)
    show ?thesis
    proof (cases "a < retries p")
      case True
      have "P (state (snd (retry_loop p func as (dl * backoff p) (Some e)
              \<lparr>state = s', trace = trace w @ [Invoke, Print_failed a (retries p) e, Sleep dl]\<rparr>)))"
        by (rule Cons.IH) (simp add: s')
      with run Inl True show ?thesis by simp
    next
      case False
      have "P (state (snd (retry_loop p func as dl (Some e)
              \<lparr>state = s', trace = trace w @ [Invoke, Print_failed a (retries p) e]\<rparr>)))"
        by (rule Cons.IH) (simp add: s')
      with run Inl False show ?thesis by simp
    qed
  qed
qed

lemma lifecycle_append: "lifecycle (xs @ ys) = lifecycle xs @ lifecycle ys"
  by (induction xs rule: lifecycle.induct) simp_all

lemma requests_append: "requests (xs @ ys) = requests xs @ requests ys"
  by (induction xs rule: requests.induct) simp_all

lemma get_json_attempt_same_scopes:
  "same_scopes e0 e \<Longrightarrow>
   same_scopes e0 (snd (timed print_line name1 (log_calls print_line name2 (get_json_body T self path ps)) e))"
  by (auto simp: same_scopes_def timed_def log_calls_def get_json_body_def print_line_def
      lifecycle_append Let_def
      split: prod.splits option.splits reply.splits sum.splits)

lemma get_json_same_scopes:
  "same_scopes (state w) (state (snd (get_json T self path ps w)))"
  unfolding get_json_def wrapper_def
proof (rule retry_loop_invariant [where P = "same_scopes (state w)"])
  show "same_scopes (state w) (state w)" by (simp add: same_scopes_def)
next
  fix s
  assume "same_scopes (state w) s"
  then show "same_scopes (state w)
      (snd (timed print_line ''get_json'' (log_calls print_line ''get_json'' (get_json_body T self path ps)) s))"
    by (rule get_json_attempt_same_scopes)
qed

lemma get_json_not_initialized:
  assumes "client (objects (state w) self) = None"
  shows "get_json T self path ps w =
    (Inl not_initialized,
     \<lparr>state = (state w)\<lparr>io := io (state w) @
          [Console (Called ''get_json''), Console (Took ''get_json''),
           Console (Called ''get_json''), Console (Took ''get_json''),
           Console (Called ''get_json''), Console (Took ''get_json'')]\<rparr>,
      trace = trace w @
          [Invoke, Print_failed 1 3 not_initialized, Sleep (3 / 10),
           Invoke, Print_failed 2 3 not_initialized, Sleep (3 / 5),
           Invoke, Print_failed 3 3 not_initialized]\<rparr>)"
  using assms
  by (simp add: get_json_def wrapper_def retry_async_safe_def upto_rec1 timed_def log_calls_def
      get_json_body_def print_line_def raise_last_def)

lemma APIClient_init_client:
  "client (objects (snd (APIClient_init url t e)) (fst (APIClient_init url t e))) = None"
  by (simp add: APIClient_init_def)

lemma aexit_client: "client (objects (aexit self e) self) = None"
  by (simp add: aexit_def split: option.splits)

lemma aexit_requests: "requests (io (aexit self e)) = requests (io e)"
  by (simp add: aexit_def requests_append split: option.splits)

lemma aexit_net: "net (aexit self e) = net e"
  by (simp add: aexit_def split: option.splits)


section \<open>The scopes and the gather of the orchestration\<close>

lemma rstrip_jp: "rstrip ''https://jsonplaceholder.typicode.com'' ''/'' = ''https://jsonplaceholder.typicode.com''"
  by (simp add: rstrip_def)

lemma rstrip_hb: "rstrip ''https://httpbin.org'' ''/'' = ''https://httpbin.org''"
  by (simp add: rstrip_def)

lemma async_with_APIClient_unfold:
  "async_with_APIClient url t block w =
     (case block (next_object (state w)) (scope_start url t w) of
        (r, w') \<Rightarrow> (r, w'\<lparr>state := aexit (next_object (state w)) (state w')\<rparr>))"
  by (simp add: async_with_APIClient_def scope_start_def APIClient_init_def aenter_def Let_def)

lemma scope_start_twice:
  "scope_start ''https://httpbin.org'' 10 (scope_start ''https://jsonplaceholder.typicode.com'' 10 w) = both_open w"
  by (simp add: scope_start_def APIClient_init_def aenter_def Let_def both_open_def jp_of_def hb_of_def
      jp_client_def hb_client_def rstrip_jp rstrip_hb fun_upd_twist)

lemma next_object_scope_start: "next_object (state (scope_start url t w)) = Suc (next_object (state w))"
  by (simp add: scope_start_def APIClient_init_def aenter_def Let_def)

lemma fetch_demo_unfold:
  "fetch_demo T finish w =
     (case gather (demo_tasks T (jp_of w) (hb_of w)) finish (both_open w) of
        (r, w') \<Rightarrow>
          (case r of Inl x \<Rightarrow> Inl x | Inr vs \<Rightarrow> unpack5 vs,
           w'\<lparr>state := aexit (jp_of w) (aexit (hb_of w) (state w'))\<rparr>))"
  by (simp add: fetch_demo_def async_with_APIClient_unfold Let_def scope_start_twice
      next_object_scope_start demo_tasks_def jp_of_def hb_of_def split: prod.splits sum.splits)

lemma same_scopes_trans: "same_scopes a b \<Longrightarrow> same_scopes b c \<Longrightarrow> same_scopes a c"
  by (simp add: same_scopes_def)

lemma demo_task_same_scopes:
  fixes w0 :: "'n env world"
  shows "aw \<in> set (demo_tasks T jp hb) \<Longrightarrow> same_scopes (state w0) (state (snd (aw w0)))"
  by (auto simp: demo_tasks_def get_json_same_scopes)


lemma demo_gather_same_scopes:
  fixes w :: "'n env world"
  shows "same_scopes (state w) (state (snd (gather (demo_tasks T jp hb) finish w)))"
proof (rule gather_invariant [where Q = "\<lambda>w'. same_scopes (state w) (state w')"])
  show "same_scopes (state w) (state w)" by (simp add: same_scopes_def)
next
  fix i and w0 :: "'n env world"
  assume "i < length (demo_tasks T jp hb)" and "same_scopes (state w) (state w0)"
  moreover have "demo_tasks T jp hb ! i \<in> set (demo_tasks T jp hb)"
    using calculation(1) by (rule nth_mem)
  ultimately show "same_scopes (state w) (state (snd ((demo_tasks T jp hb ! i) w0)))"
    using demo_task_same_scopes same_scopes_trans by blast
qed

lemma fetch_demo_scopes:
  "lifecycle (io (state (snd (fetch_demo T finish w)))) =
     lifecycle (io (state w)) @
       [Created (jp_client w), Created (hb_client w), Aclose (hb_client w), Aclose (jp_client w)]
   \<and> client (objects (state (snd (fetch_demo T finish w))) (jp_of w)) = None
   \<and> client (objects (state (snd (fetch_demo T finish w))) (hb_of w)) = None"
proof -
  obtain r wg where g: "gather (demo_tasks T (jp_of w) (hb_of w)) finish (both_open w) = (r, wg)"
    by (cases "gather (demo_tasks T (jp_of w) (hb_of w)) finish (both_open w)")
  from demo_gather_same_scopes [of "both_open w" T "jp_of w" "hb_of w" finish] g
  have same: "same_scopes (state (both_open w)) (state wg)" by simp
  then have objs: "objects (state wg) = objects (state (both_open w))"
    and life: "lifecycle (io (state wg)) = lifecycle (io (state (both_open w)))"
    by (simp_all add: same_scopes_def)
  have ne: "jp_of w \<noteq> hb_of w" by (simp add: jp_of_def hb_of_def)
  have final: "snd (fetch_demo T finish w) = wg\<lparr>state := aexit (jp_of w) (aexit (hb_of w) (state wg))\<rparr>"
    by (simp add: fetch_demo_unfold g)
  show ?thesis
    unfolding final using ne
    by (simp add: aexit_def objs life both_open_def lifecycle_append)
qed









lemma scope_start_client:
  "client (objects (state (scope_start url t w)) (next_object (state w))) =
     Some \<lparr>ident = next_client (state w), h_base_url = rstrip url ''/'', h_timeout = t\<rparr>"
  by (simp add: scope_start_def APIClient_init_def aenter_def Let_def)



section \<open>The claims\<close>

text \<open>
  Claim C1. For every limit \<open>N \<ge> 1\<close> and every wrapped function whose calls
  \<open>1\<close> to \<open>N - 1\<close> fail and whose call \<open>N\<close> returns \<open>v\<close>, the wrapper returns
  \<open>v\<close>. The function has then been called exactly \<open>N\<close> times: the state is the one
  after \<open>N\<close> calls, the trace holds \<open>N\<close> calls, and it ends with the successful
  one, so nothing is attempted, printed or slept after the success.
\<close>

theorem retry_succeeds_on_attempt_N:
  assumes "1 \<le> N"
    and "\<forall>k<nat N - 1. isl (outcome func s k)"
    and "outcome func s (nat N - 1) = Inr v"
  shows "wrapper \<lparr>retries = N, delay = d, backoff = b\<rparr> func \<lparr>state = s, trace = []\<rparr> =
           (Inr v, \<lparr>state = state_after func s (nat N),
                    trace = failed_attempts \<lparr>retries = N, delay = d, backoff = b\<rparr> func s (nat N - 1) @ [Invoke]\<rparr>)
         \<and> invocations (trace (snd (wrapper \<lparr>retries = N, delay = d, backoff = b\<rparr> func \<lparr>state = s, trace = []\<rparr>))) = nat N"
proof -
  let ?p = "\<lparr>retries = N, delay = d, backoff = b\<rparr>"
  from assms(1) have lt: "int (nat N - 1) < retries ?p" and suc: "Suc (nat N - 1) = nat N"
    by simp_all
  have run: "wrapper ?p func \<lparr>state = s, trace = []\<rparr> =
      (Inr v, \<lparr>state = state_after func s (nat N), trace = failed_attempts ?p func s (nat N - 1) @ [Invoke]\<rparr>)"
    using wrapper_success_at [of "nat N - 1" func s v ?p, OF assms(2) assms(3) lt] suc by simp
  show ?thesis
    unfolding run using suc by (simp add: invocations_append invocations_failed_attempts)
qed

theorem retry_succeeds_on_attempt_N_witness:
  "(1::int) \<le> 3
   \<and> isl (outcome (flaky 3 ''TransportError'' (42::nat)) 0 0)
   \<and> isl (outcome (flaky 3 ''TransportError'' (42::nat)) 0 1)
   \<and> outcome (flaky 3 ''TransportError'' (42::nat)) 0 2 = Inr 42
   \<and> fst (wrapper \<lparr>retries = 3, delay = 1 / 10, backoff = 2\<rparr> (flaky 3 ''TransportError'' (42::nat)) \<lparr>state = 0, trace = []\<rparr>) = Inr 42
   \<and> invocations (trace (snd (wrapper \<lparr>retries = 3, delay = 1 / 10, backoff = 2\<rparr> (flaky 3 ''TransportError'' (42::nat)) \<lparr>state = 0, trace = []\<rparr>))) = 3"
proof -
  let ?f = "flaky 3 ''TransportError'' (42::nat)"
  have n: "(1::int) \<le> 3" by simp
  have fails: "\<forall>k<nat 3 - 1. isl (outcome ?f 0 k)" by (simp add: outcome_flaky)
  have ok: "outcome ?f 0 (nat 3 - 1) = Inr 42" by (simp add: outcome_flaky)
  note run = retry_succeeds_on_attempt_N [OF n fails ok, of "1 / 10" 2]
  from run have result: "fst (wrapper \<lparr>retries = 3, delay = 1 / 10, backoff = 2\<rparr> ?f \<lparr>state = 0, trace = []\<rparr>) = Inr 42"
    by simp
  from run [THEN conjunct2] have calls: "invocations (trace (snd (wrapper \<lparr>retries = 3, delay = 1 / 10, backoff = 2\<rparr> ?f \<lparr>state = 0, trace = []\<rparr>))) = 3"
    by simp
  show ?thesis using result calls by (simp add: outcome_flaky)
qed

text \<open>
  Claim C2. For every limit \<open>N \<ge> 1\<close> and every wrapped function that fails on all of
  its first \<open>N\<close> calls, the wrapper makes \<open>N\<close> calls and raises the very exception
  \<open>e\<close> that call \<open>N\<close> raised, not wrapped in anything.
\<close>

theorem retry_surfaces_error_of_attempt_N:
  assumes "1 \<le> N"
    and "\<forall>k<nat N. isl (outcome func s k)"
    and "outcome func s (nat N - 1) = Inl e"
  shows "fst (wrapper \<lparr>retries = N, delay = d, backoff = b\<rparr> func \<lparr>state = s, trace = []\<rparr>) = Inl e
         \<and> invocations (trace (snd (wrapper \<lparr>retries = N, delay = d, backoff = b\<rparr> func \<lparr>state = s, trace = []\<rparr>))) = nat N"
proof -
  let ?p = "\<lparr>retries = N, delay = d, backoff = b\<rparr>"
  from assms(1) have suc: "Suc (nat N - 1) = nat N" by simp
  have "1 \<le> retries ?p" and "\<forall>k<nat (retries ?p). isl (outcome func s k)"
    using assms(1,2) by simp_all
  note run = wrapper_all_fail [OF this]
  show ?thesis
    unfolding run using suc assms(3) by (simp add: invocations_append invocations_failed_attempts)
qed

theorem retry_surfaces_error_of_attempt_N_witness:
  "(1::int) \<le> 3
   \<and> outcome (always_failing ''TransportError'' :: (nat, nat) coro) 0 0 = Inl (Exn ''TransportError'' ''call I'')
   \<and> outcome (always_failing ''TransportError'' :: (nat, nat) coro) 0 1 = Inl (Exn ''TransportError'' ''call II'')
   \<and> outcome (always_failing ''TransportError'' :: (nat, nat) coro) 0 2 = Inl (Exn ''TransportError'' ''call III'')
   \<and> fst (wrapper \<lparr>retries = 3, delay = 1 / 10, backoff = 2\<rparr> (always_failing ''TransportError'' :: (nat, nat) coro) \<lparr>state = 0, trace = []\<rparr>)
       = Inl (Exn ''TransportError'' ''call III'')
   \<and> invocations (trace (snd (wrapper \<lparr>retries = 3, delay = 1 / 10, backoff = 2\<rparr> (always_failing ''TransportError'' :: (nat, nat) coro) \<lparr>state = 0, trace = []\<rparr>))) = 3"
proof -
  let ?f = "always_failing ''TransportError'' :: (nat, nat) coro"
  have n: "(1::int) \<le> 3" by simp
  have fails: "\<forall>k<nat 3. isl (outcome ?f 0 k)" by (simp add: outcome_always_failing)
  have last: "outcome ?f 0 (nat 3 - 1) = Inl (Exn ''TransportError'' ''call III'')"
    by (simp add: outcome_always_failing numeral_3_eq_3)
  from retry_surfaces_error_of_attempt_N [OF n fails last, of "1 / 10" 2]
  show ?thesis by (simp add: outcome_always_failing numeral_2_eq_2)
qed

text \<open>
  Claim C3, as amended. The construction of a retry policy validates nothing:
  \<^verbatim>\<open>retry_async_safe\<close> returns the decorator for all values of its parameters, in
  range or not, and never raises a configuration error.
\<close>

theorem retry_async_safe_never_fails:
  "retry_async_safe r d b = Inr \<lparr>retries = r, delay = d, backoff = b\<rparr>"
  by (simp add: retry_async_safe_def)

text \<open>
  The claim as stated fails: a policy with \<open>retries = 0\<close>, a negative delay and a
  backoff factor below 1 is constructed without an error.
\<close>

theorem retry_async_safe_accepts_out_of_range:
  "retry_async_safe 0 (- 1) (1 / 2) = Inr \<lparr>retries = 0, delay = - 1, backoff = 1 / 2\<rparr>
   \<and> \<not> isl (retry_async_safe 0 (- 1) (1 / 2))"
  by (simp add: retry_async_safe_def)




text \<open>
  Claim C5. In every run with a limit \<open>N \<ge> 1\<close>, whatever the wrapped function does,
  the calls and sleeps alternate: the sleep after the \<open>(k+1)\<close>-th call lasts
  \<open>d * b ^ k\<close>, that is, the delay between attempt \<open>k\<close> and attempt \<open>k + 1\<close> is
  \<open>d * b ^ (k - 1)\<close>; the run ends with a call, so no sleep follows the final attempt;
  and there are at most \<open>N\<close> calls.
\<close>

theorem retry_delay_schedule:
  assumes "1 \<le> N"
  shows "timing (trace (snd (wrapper \<lparr>retries = N, delay = d, backoff = b\<rparr> func \<lparr>state = s, trace = []\<rparr>))) =
           concat (map (\<lambda>k. [Invoke, Sleep (d * b ^ k)])
             [0..<invocations (trace (snd (wrapper \<lparr>retries = N, delay = d, backoff = b\<rparr> func \<lparr>state = s, trace = []\<rparr>))) - 1])
           @ [Invoke]
         \<and> sleeps (trace (snd (wrapper \<lparr>retries = N, delay = d, backoff = b\<rparr> func \<lparr>state = s, trace = []\<rparr>))) =
           map (\<lambda>k. d * b ^ k)
             [0..<invocations (trace (snd (wrapper \<lparr>retries = N, delay = d, backoff = b\<rparr> func \<lparr>state = s, trace = []\<rparr>))) - 1]
         \<and> invocations (trace (snd (wrapper \<lparr>retries = N, delay = d, backoff = b\<rparr> func \<lparr>state = s, trace = []\<rparr>))) \<le> nat N"
proof -
  let ?p = "\<lparr>retries = N, delay = d, backoff = b\<rparr>"
  consider j where "j < nat N" "\<forall>k<j. isl (outcome func s k)" "\<not> isl (outcome func s j)"
    | "\<forall>k<nat N. isl (outcome func s k)"
    using first_success_or_all_fail [of "nat N" "outcome func s"] by blast
  then show ?thesis
  proof cases
    case 1
    from 1(3) obtain v where v: "outcome func s j = Inr v"
      by (cases "outcome func s j") simp_all
    from 1(1) have lt: "int j < retries ?p" by simp
    note run = wrapper_success_at [OF 1(2) v lt]
    show ?thesis
      unfolding run using 1(1)
      by (simp add: invocations_append invocations_failed_attempts sleeps_append
          sleeps_failed_attempts timing_append timing_failed_attempts)
  next
    case 2
    have "1 \<le> retries ?p" and "\<forall>k<nat (retries ?p). isl (outcome func s k)"
      using assms 2 by simp_all
    note run = wrapper_all_fail [OF this]
    show ?thesis
      unfolding run using assms
      by (simp add: invocations_append invocations_failed_attempts sleeps_append
          sleeps_failed_attempts timing_append timing_failed_attempts)
  qed
qed

theorem retry_delay_schedule_witness:
  "(1::int) \<le> 3
   \<and> timing (trace (snd (wrapper \<lparr>retries = 3, delay = 1 / 10, backoff = 2\<rparr> (always_failing ''TransportError'' :: (nat, nat) coro) \<lparr>state = 0, trace = []\<rparr>)))
       = [Invoke, Sleep (1 / 10), Invoke, Sleep (1 / 5), Invoke]
   \<and> sleeps (trace (snd (wrapper \<lparr>retries = 3, delay = 1 / 10, backoff = 2\<rparr> (always_failing ''TransportError'' :: (nat, nat) coro) \<lparr>state = 0, trace = []\<rparr>)))
       = [1 / 10, 1 / 5]"
proof -
  let ?f = "always_failing ''TransportError'' :: (nat, nat) coro"
  let ?tr = "trace (snd (wrapper \<lparr>retries = 3, delay = 1 / 10, backoff = 2\<rparr> ?f \<lparr>state = 0, trace = []\<rparr>))"
  have n: "(1::int) \<le> 3" by simp
  have calls: "invocations ?tr = 3"
    by (simp add: wrapper_def always_failing_def upto_rec1)
  from retry_delay_schedule [OF n, of "1 / 10" 2 ?f 0]
  show ?thesis unfolding calls by (simp add: numeral_2_eq_2)
qed

text \<open>
  Claim C6. A scope acquires its connection on entry. However its block ends, with a
  value \<open>r = Inr v\<close> (a normal or an early return) or with an exception
  \<open>r = Inl x\<close>, the statement ends the same way, and when the block has left the
  connection \<open>h\<close> in the client, the exit closes \<open>h\<close> exactly once and sets the
  attribute to \<^verbatim>\<open>None\<close>. In every run of \<^verbatim>\<open>fetch_demo\<close>, whether the gather
  returns or raises, the two connections are created and closed exactly once each, the
  inner one (\<^verbatim>\<open>hb\<close>) before the outer one (\<^verbatim>\<open>jp\<close>), and both attributes are
  \<^verbatim>\<open>None\<close> at the end.
\<close>

theorem scoped_clients_released_once_in_reverse_order:
  fixes block :: "nat \<Rightarrow> 'n env world \<Rightarrow> (exn + 'a) \<times> 'n env world"
    and T :: "('m, 'j) transport" and w0 :: "'m env world"
  assumes "block (next_object (state w)) (scope_start url t w) = (r, w1)"
    and "client (objects (state w1) (next_object (state w))) = Some h"
  shows "client (objects (state (scope_start url t w)) (next_object (state w))) =
           Some \<lparr>ident = next_client (state w), h_base_url = rstrip url ''/'', h_timeout = t\<rparr>
       \<and> fst (async_with_APIClient url t block w) = r
       \<and> io (state (snd (async_with_APIClient url t block w))) = io (state w1) @ [Aclose h]
       \<and> client (objects (state (snd (async_with_APIClient url t block w))) (next_object (state w))) = None
       \<and> lifecycle (io (state (snd (fetch_demo T finish w0)))) =
           lifecycle (io (state w0)) @
             [Created (jp_client w0), Created (hb_client w0), Aclose (hb_client w0), Aclose (jp_client w0)]
       \<and> client (objects (state (snd (fetch_demo T finish w0))) (jp_of w0)) = None
       \<and> client (objects (state (snd (fetch_demo T finish w0))) (hb_of w0)) = None"
proof -
  have exit: "async_with_APIClient url t block w =
      (r, w1\<lparr>state := aexit (next_object (state w)) (state w1)\<rparr>)"
    by (simp add: async_with_APIClient_unfold assms(1))
  have "io (state (snd (async_with_APIClient url t block w))) = io (state w1) @ [Aclose h]"
    and "client (objects (state (snd (async_with_APIClient url t block w))) (next_object (state w))) = None"
    unfolding exit using assms(2) by (simp_all add: aexit_def)
  with exit scope_start_client [of url t w] fetch_demo_scopes [of T finish w0]
  show ?thesis by simp
qed

theorem scoped_clients_released_once_in_reverse_order_witness:
  "client (objects (state (snd (one_request (broken_server ''/posts/1'') ''/posts/1'' 0
        (scope_start ''https://example.org//'' 10 fresh)))) 0) =
     Some \<lparr>ident = 0, h_base_url = ''https://example.org'', h_timeout = 10\<rparr>
   \<and> fst (async_with_APIClient ''https://example.org//'' 10
        (one_request (broken_server ''/posts/1'') ''/posts/1'') fresh) =
     Inl (Exn ''HTTPStatusError'' ''500 Internal Server Error'')
   \<and> lifecycle (io (state (snd (async_with_APIClient ''https://example.org//'' 10
        (one_request (broken_server ''/posts/1'') ''/posts/1'') fresh)))) =
     [Created \<lparr>ident = 0, h_base_url = ''https://example.org'', h_timeout = 10\<rparr>,
      Aclose \<lparr>ident = 0, h_base_url = ''https://example.org'', h_timeout = 10\<rparr>]
   \<and> client (objects (state (snd (async_with_APIClient ''https://example.org//'' 10
        (one_request (broken_server ''/posts/1'') ''/posts/1'') fresh))) 0) = None
   \<and> lifecycle (io (state (snd (fetch_demo (broken_server ''/posts/1'') (\<lambda>i. i) fresh)))) =
     [Created \<lparr>ident = 0, h_base_url = ''https://jsonplaceholder.typicode.com'', h_timeout = 10\<rparr>,
      Created \<lparr>ident = 1, h_base_url = ''https://httpbin.org'', h_timeout = 10\<rparr>,
      Aclose \<lparr>ident = 1, h_base_url = ''https://httpbin.org'', h_timeout = 10\<rparr>,
      Aclose \<lparr>ident = 0, h_base_url = ''https://jsonplaceholder.typicode.com'', h_timeout = 10\<rparr>]"
proof -
  let ?block = "one_request (broken_server ''/posts/1'') ''/posts/1''"
  let ?url = "''https://example.org//''"
  let ?h = "\<lparr>ident = 0, h_base_url = ''https://example.org'', h_timeout = 10\<rparr>"
  let ?end = "?block (next_object (state fresh)) (scope_start ?url 10 fresh)"
  have a: "next_object (state fresh) = 0" by (simp add: fresh_def)
  have run: "?end = (fst ?end, snd ?end)" by simp
  have kept: "client (objects (state (snd ?end)) (next_object (state fresh))) = Some ?h"
    by code_simp
  have raised: "fst ?end = Inl (Exn ''HTTPStatusError'' ''500 Internal Server Error'')"
    by code_simp
  have log: "lifecycle (io (state (snd ?end))) = [Created ?h]"
    by code_simp
  note scoped_clients_released_once_in_reverse_order
    [where block = ?block and w = fresh and url = ?url and t = 10 and h = ?h
       and T = "broken_server ''/posts/1''" and finish = "\<lambda>i. i" and ?w0.0 = fresh,
     OF run kept]
  then show ?thesis
    using kept raised log
    by (simp add: a lifecycle_append fresh_def jp_client_def hb_client_def)
qed

text \<open>
  Claim C7. A call of \<^verbatim>\<open>get_json\<close> on a client that has been constructed but not
  entered, and a call on a client after \<^verbatim>\<open>__aexit__\<close>, raise the
  \<^verbatim>\<open>RuntimeError\<close> of line 131; the log of requests and the state of the network
  are as before the call, so no request reaches the transport. (The check of line 130
  is inside the retried function: the error comes after three attempts and two sleeps,
  see \<open>get_json_not_initialized\<close>.)
\<close>

theorem get_json_outside_scope_fails:
  "fst (get_json T (fst (APIClient_init url t e)) path ps
          \<lparr>state = snd (APIClient_init url t e), trace = tr\<rparr>) = Inl not_initialized
   \<and> requests (io (state (snd (get_json T (fst (APIClient_init url t e)) path ps
          \<lparr>state = snd (APIClient_init url t e), trace = tr\<rparr>)))) = requests (io e)
   \<and> net (state (snd (get_json T (fst (APIClient_init url t e)) path ps
          \<lparr>state = snd (APIClient_init url t e), trace = tr\<rparr>))) = net e
   \<and> fst (get_json T self path ps \<lparr>state = aexit self e, trace = tr\<rparr>) = Inl not_initialized
   \<and> requests (io (state (snd (get_json T self path ps \<lparr>state = aexit self e, trace = tr\<rparr>)))) =
       requests (io e)
   \<and> net (state (snd (get_json T self path ps \<lparr>state = aexit self e, trace = tr\<rparr>))) = net e"
proof -
  let ?w1 = "\<lparr>state = snd (APIClient_init url t e), trace = tr\<rparr>"
  let ?w2 = "\<lparr>state = aexit self e, trace = tr\<rparr>"
  have "client (objects (state ?w1) (fst (APIClient_init url t e))) = None"
    by (simp add: APIClient_init_client)
  note before = get_json_not_initialized [OF this, of T path ps]
  have "client (objects (state ?w2) self) = None"
    by (simp add: aexit_client)
  note after = get_json_not_initialized [OF this, of T path ps]
  have init: "io (snd (APIClient_init url t e)) = io e" "net (snd (APIClient_init url t e)) = net e"
    by (simp_all add: APIClient_init_def)
  show ?thesis
    unfolding before after
    by (simp add: requests_append init aexit_requests aexit_net)
qed



text \<open>
  Claim C9. The loop does not look at the kind of the exception. Two wrapped functions
  whose calls fail on the same attempts, whatever the exceptions are, are called equally
  often with the same sleeps in between, both runs fail or both succeed, and when they
  fail each raises the exception of its own last call.
\<close>

theorem retry_same_schedule_for_any_error_kind:
  fixes f1 :: "('s, 'a) coro" and f2 :: "('t, 'c) coro"
  assumes "1 \<le> N"
    and "\<forall>k<nat N. isl (outcome f1 s1 k) = isl (outcome f2 s2 k)"
  shows "timing (trace (snd (wrapper \<lparr>retries = N, delay = d, backoff = b\<rparr> f1 \<lparr>state = s1, trace = []\<rparr>))) =
         timing (trace (snd (wrapper \<lparr>retries = N, delay = d, backoff = b\<rparr> f2 \<lparr>state = s2, trace = []\<rparr>)))
       \<and> isl (fst (wrapper \<lparr>retries = N, delay = d, backoff = b\<rparr> f1 \<lparr>state = s1, trace = []\<rparr>)) =
         isl (fst (wrapper \<lparr>retries = N, delay = d, backoff = b\<rparr> f2 \<lparr>state = s2, trace = []\<rparr>))
       \<and> (isl (fst (wrapper \<lparr>retries = N, delay = d, backoff = b\<rparr> f1 \<lparr>state = s1, trace = []\<rparr>)) \<longrightarrow>
            fst (wrapper \<lparr>retries = N, delay = d, backoff = b\<rparr> f1 \<lparr>state = s1, trace = []\<rparr>) =
              Inl (projl (outcome f1 s1 (nat N - 1)))
          \<and> fst (wrapper \<lparr>retries = N, delay = d, backoff = b\<rparr> f2 \<lparr>state = s2, trace = []\<rparr>) =
              Inl (projl (outcome f2 s2 (nat N - 1))))"
proof -
  let ?p = "\<lparr>retries = N, delay = d, backoff = b\<rparr>"
  consider j where "j < nat N" "\<forall>k<j. isl (outcome f1 s1 k)" "\<not> isl (outcome f1 s1 j)"
    | "\<forall>k<nat N. isl (outcome f1 s1 k)"
    using first_success_or_all_fail [of "nat N" "outcome f1 s1"] by blast
  then show ?thesis
  proof cases
    case 1
    from 1 assms(2) have fails2: "\<forall>k<j. isl (outcome f2 s2 k)" and ok2: "\<not> isl (outcome f2 s2 j)"
      by simp_all
    from 1(3) obtain v1 where v1: "outcome f1 s1 j = Inr v1"
      by (cases "outcome f1 s1 j") simp_all
    from ok2 obtain v2 where v2: "outcome f2 s2 j = Inr v2"
      by (cases "outcome f2 s2 j") simp_all
    from 1(1) have lt: "int j < retries ?p" by simp
    note run1 = wrapper_success_at [OF 1(2) v1 lt]
    note run2 = wrapper_success_at [OF fails2 v2 lt]
    show ?thesis
      unfolding run1 run2
      by (simp add: timing_append timing_failed_attempts)
  next
    case 2
    with assms(2) have fails2: "\<forall>k<nat N. isl (outcome f2 s2 k)" by simp
    have "1 \<le> retries ?p" and "\<forall>k<nat (retries ?p). isl (outcome f1 s1 k)"
      using assms(1) 2 by simp_all
    note run1 = wrapper_all_fail [OF this]
    have "1 \<le> retries ?p" and "\<forall>k<nat (retries ?p). isl (outcome f2 s2 k)"
      using assms(1) fails2 by simp_all
    note run2 = wrapper_all_fail [OF this]
    show ?thesis
      unfolding run1 run2
      by (simp add: timing_append timing_failed_attempts)
  qed
qed

theorem retry_same_schedule_for_any_error_kind_witness:
  "(1::int) \<le> 3
   \<and> timing (trace (snd (wrapper \<lparr>retries = 3, delay = 3 / 10, backoff = 2\<rparr> (always_failing ''TransportError'' :: (nat, nat) coro) \<lparr>state = 0, trace = []\<rparr>)))
     = timing (trace (snd (wrapper \<lparr>retries = 3, delay = 3 / 10, backoff = 2\<rparr> (always_failing ''DecodeError'' :: (nat, nat) coro) \<lparr>state = 0, trace = []\<rparr>)))
   \<and> fst (wrapper \<lparr>retries = 3, delay = 3 / 10, backoff = 2\<rparr> (always_failing ''TransportError'' :: (nat, nat) coro) \<lparr>state = 0, trace = []\<rparr>)
     = Inl (Exn ''TransportError'' ''call III'')
   \<and> fst (wrapper \<lparr>retries = 3, delay = 3 / 10, backoff = 2\<rparr> (always_failing ''DecodeError'' :: (nat, nat) coro) \<lparr>state = 0, trace = []\<rparr>)
     = Inl (Exn ''DecodeError'' ''call III'')"
proof -
  let ?f1 = "always_failing ''TransportError'' :: (nat, nat) coro"
  let ?f2 = "always_failing ''DecodeError'' :: (nat, nat) coro"
  have n: "(1::int) \<le> 3" by simp
  have same: "\<forall>k<nat 3. isl (outcome ?f1 0 k) = isl (outcome ?f2 0 k)"
    by (simp add: outcome_always_failing)
  have failed: "isl (fst (wrapper \<lparr>retries = 3, delay = 3 / 10, backoff = 2\<rparr> ?f1 \<lparr>state = 0, trace = []\<rparr>))"
    by (simp add: wrapper_def always_failing_def raise_last_def upto_rec1)
  from retry_same_schedule_for_any_error_kind [OF n same, of "3 / 10" 2] failed
  show ?thesis by (simp add: outcome_always_failing numeral_2_eq_2)
qed

text \<open>
  Claim C10. The constructor stores the base URL without its trailing slashes: what it
  stores is the URL up to a run of slashes at its end and does not end with a slash.
  Two constructions that differ only in the number of trailing slashes of the URL yield
  the same object in the same store, and so the same behaviour of every operation, each
  of which is a function of the object's address and the store.
\<close>

theorem APIClient_init_strips_trailing_slashes:
  "APIClient_init (u @ replicate m CHR ''/'') t e = APIClient_init (u @ replicate n CHR ''/'') t e
   \<and> base_url (objects (snd (APIClient_init url t e)) (fst (APIClient_init url t e))) = rstrip url ''/''
   \<and> (\<exists>k. url = rstrip url ''/'' @ replicate k CHR ''/'')
   \<and> \<not> (\<exists>v. rstrip url ''/'' = v @ ''/'')"
  using rstrip_decompose [of url "CHR ''/''"] rstrip_no_trailing [of url "CHR ''/''"]
  by (simp add: APIClient_init_def rstrip_append_replicate)

end
